theory Spec2Isabelle
  imports Main
begin

section \<open>The Undoable component of react-undoable (src/index.tsx)\<close>

text \<open>
  A value of the tracked type \<open>T | undefined\<close> is an \<open>'a option\<close>: \<open>None\<close> is JavaScript's
  \<open>undefined\<close>, \<open>Some v\<close> is any other value (\<open>null\<close>, \<open>0\<close> and \<open>''\<close> included, which
  are not \<open>undefined\<close>). The test \<open>x === undefined\<close> is \<open>x = None\<close>.
\<close>

subsection \<open>Props and state\<close>

text \<open>
  \<open>IUndoableProps\<close>: only \<open>initialState\<close> takes part in the history logic (\<open>children\<close> is
  the render callback).
\<close>

record 'a IUndoableProps =
  initialState :: "'a option"

text \<open>\<open>IUndoableState\<close>: the current value, the past stack and the future stack.\<close>

record 'a IUndoableState =
  currentState :: "'a option"
  previousState :: "'a option list"
  nextState :: "'a option list"

text \<open>
  The object literal handed to \<open>setState\<close>, or returned by \<open>getDerivedStateFromProps\<close>: each
  key is either absent (\<open>None\<close>) or present with a value (which may itself be
  \<open>undefined\<close>, hence \<open>Some None\<close> for the key \<open>currentState\<close>).
\<close>

record 'a partial_state =
  set_currentState :: "'a option option"
  set_nextState :: "'a option list option"
  set_previousState :: "'a option list option"

text \<open>React merges a partial state into the state key by key; absent keys keep their value.\<close>

definition merge_state :: "'a IUndoableState \<Rightarrow> 'a partial_state \<Rightarrow> 'a IUndoableState" where
  "merge_state s u =
     \<lparr> currentState = (case set_currentState u of None \<Rightarrow> currentState s | Some v \<Rightarrow> v),
       previousState = (case set_previousState u of None \<Rightarrow> previousState s | Some p \<Rightarrow> p),
       nextState = (case set_nextState u of None \<Rightarrow> nextState s | Some n \<Rightarrow> n) \<rparr>"

text \<open>
  An instance of the class \<open>Undoable\<close>: its \<open>state\<close>, and the completion callbacks that
  \<open>setState\<close> has invoked so far, oldest first (\<open>'c\<close> is the type of callbacks).
\<close>

record ('a, 'c) Undoable =
  state :: "'a IUndoableState"
  called :: "'c list"

text \<open>The field initialiser \<open>readonly state = {currentState: undefined, previousState: [], nextState: []}\<close>.\<close>

definition initial_state :: "'a IUndoableState" where
  "initial_state = \<lparr> currentState = None, previousState = [], nextState = [] \<rparr>"

definition new_Undoable :: "('a, 'c) Undoable" where
  "new_Undoable = \<lparr> state = initial_state, called = [] \<rparr>"

text \<open>
  \<open>this.setState(update, callback)\<close>: the update is merged into the state and the
  callback, when one is given, is invoked once the state is committed. Every call is
  committed before the next operation reads \<open>this.state\<close>.
\<close>

definition setState :: "'a partial_state \<Rightarrow> 'c option \<Rightarrow> ('a, 'c) Undoable \<Rightarrow> ('a, 'c) Undoable" where
  "setState update callback this =
     this \<lparr> state := merge_state (state this) update,
            called := called this @ (case callback of None \<Rightarrow> [] | Some cb \<Rightarrow> [cb]) \<rparr>"

subsection \<open>Initial-value adoption\<close>

text \<open>
  JavaScript truthiness of a value of type \<open>T | undefined\<close>: \<open>undefined\<close> is falsy, and
  \<open>truthy\<close> says which of the other values are (it is a parameter: the component is
  generic in \<open>T\<close>).
\<close>

definition is_truthy :: "('a \<Rightarrow> bool) \<Rightarrow> 'a option \<Rightarrow> bool" where
  "is_truthy truthy v = (case v of None \<Rightarrow> False | Some x \<Rightarrow> truthy x)"

text \<open>
  \<open>static getDerivedStateFromProps(nextProps, nextState)\<close>: returns the partial state
  \<open>{currentState: nextProps.initialState}\<close>, or \<open>null\<close> (here \<open>None\<close>).
\<close>

definition getDerivedStateFromProps ::
  "('a \<Rightarrow> bool) \<Rightarrow> 'a IUndoableProps \<Rightarrow> 'a IUndoableState \<Rightarrow> 'a partial_state option" where
  "getDerivedStateFromProps truthy nextProps nextState' =
     (if is_truthy truthy (initialState nextProps) \<and> currentState nextState' = None
      then Some \<lparr> set_currentState = Some (initialState nextProps),
                  set_nextState = None,
                  set_previousState = None \<rparr>
      else None)"

text \<open>
  One derivation: React calls \<open>getDerivedStateFromProps\<close> with the props and the state
  before it renders, and merges what it returns into the state (\<open>null\<close> changes nothing).
\<close>

definition derive :: "('a \<Rightarrow> bool) \<Rightarrow> 'a IUndoableProps \<Rightarrow> ('a, 'c) Undoable \<Rightarrow> ('a, 'c) Undoable" where
  "derive truthy props this =
     (case getDerivedStateFromProps truthy props (state this) of
        None \<Rightarrow> this
      | Some update \<Rightarrow> this \<lparr> state := merge_state (state this) update \<rparr>)"

subsection \<open>The five operations\<close>

text \<open>
  Each method is modelled up to the commit of its own \<open>setState\<close>; a derivation that
  React runs afterwards is the separate step \<open>derive\<close>. \<open>undo\<close> and \<open>redo\<close> give the value
  that the method returns together with the instance afterwards; a method that returns
  nothing gives the instance afterwards. The copy \<open>[...xs]\<close> followed by \<open>pop()\<close> is
  \<open>last xs\<close> for the popped element and \<open>butlast xs\<close> for what remains, both used only
  when \<open>xs.length\<close> is not zero.
\<close>

definition undo :: "('a, 'c) Undoable \<Rightarrow> 'a option \<times> ('a, 'c) Undoable" where
  "undo this =
     (if length (previousState (state this)) \<noteq> 0 then
        (let nextPreviousState = butlast (previousState (state this));
             nextCurrentState = last (previousState (state this));
             nextNextState = currentState (state this)
         in (nextCurrentState,
             setState \<lparr> set_currentState = Some nextCurrentState,
                        set_nextState = Some (nextState (state this) @ [nextNextState]),
                        set_previousState = Some nextPreviousState \<rparr>
                      None this))
      else (None, this))"

definition redo :: "('a, 'c) Undoable \<Rightarrow> 'a option \<times> ('a, 'c) Undoable" where
  "redo this =
     (if length (nextState (state this)) \<noteq> 0 then
        (let nextNextState = butlast (nextState (state this));
             nextCurrentState = last (nextState (state this));
             nextPreviousState = currentState (state this)
         in (nextCurrentState,
             setState \<lparr> set_currentState = Some nextCurrentState,
                        set_nextState = Some nextNextState,
                        set_previousState = Some (previousState (state this) @ [nextPreviousState]) \<rparr>
                      None this))
      else (None, this))"

definition pushState :: "'a option \<Rightarrow> 'c option \<Rightarrow> ('a, 'c) Undoable \<Rightarrow> ('a, 'c) Undoable" where
  "pushState state' callback this =
     setState \<lparr> set_currentState = Some state',
                set_nextState = Some [],
                set_previousState = Some (previousState (state this) @ [currentState (state this)]) \<rparr>
              callback this"

definition resetState :: "'a option \<Rightarrow> 'c option \<Rightarrow> ('a, 'c) Undoable \<Rightarrow> ('a, 'c) Undoable" where
  "resetState state' callback this =
     setState \<lparr> set_currentState = Some state',
                set_nextState = Some [],
                set_previousState = Some [] \<rparr>
              callback this"

definition updateState :: "'a option \<Rightarrow> 'c option \<Rightarrow> ('a, 'c) Undoable \<Rightarrow> ('a, 'c) Undoable" where
  "updateState state' callback this =
     setState \<lparr> set_currentState = Some state',
                set_nextState = None,
                set_previousState = None \<rparr>
              callback this"

subsection \<open>Calls on an instance, in sequence\<close>

text \<open>
  What can happen to a mounted instance: a call of one of the five methods, or a
  derivation with the props of that moment (the props may differ from one derivation to
  the next).
\<close>

datatype ('a, 'c) event =
    PushState "'a option" "'c option"
  | UpdateState "'a option" "'c option"
  | ResetState "'a option" "'c option"
  | Undo
  | Redo
  | Derive "'a IUndoableProps"

fun step :: "('a \<Rightarrow> bool) \<Rightarrow> ('a, 'c) event \<Rightarrow> ('a, 'c) Undoable \<Rightarrow> ('a, 'c) Undoable" where
  "step truthy (PushState v cb) this = pushState v cb this"
| "step truthy (UpdateState v cb) this = updateState v cb this"
| "step truthy (ResetState v cb) this = resetState v cb this"
| "step truthy Undo this = snd (undo this)"
| "step truthy Redo this = snd (redo this)"
| "step truthy (Derive props) this = derive truthy props this"

text \<open>The adoption rule fires at a derivation when \<open>getDerivedStateFromProps\<close> does not return \<open>null\<close>.\<close>

fun fires :: "('a \<Rightarrow> bool) \<Rightarrow> ('a, 'c) event \<Rightarrow> ('a, 'c) Undoable \<Rightarrow> bool" where
  "fires truthy (Derive props) this =
     (case getDerivedStateFromProps truthy props (state this) of None \<Rightarrow> False | Some u \<Rightarrow> True)"
| "fires truthy e this = False"

text \<open>How many times the adoption rule fires along a sequence of events.\<close>

fun adoptions :: "('a \<Rightarrow> bool) \<Rightarrow> ('a, 'c) event list \<Rightarrow> ('a, 'c) Undoable \<Rightarrow> nat" where
  "adoptions truthy [] this = 0"
| "adoptions truthy (e # es) this =
     (if fires truthy e this then 1 else 0) + adoptions truthy es (step truthy e this)"

subsection \<open>Observations used to state the properties\<close>

text \<open>A method call that is handed a value other than \<open>undefined\<close> (\<open>undo\<close> and \<open>redo\<close> take none).\<close>

fun defined_event :: "('a, 'c) event \<Rightarrow> bool" where
  "defined_event (PushState v cb) = (v \<noteq> None)"
| "defined_event (UpdateState v cb) = (v \<noteq> None)"
| "defined_event (ResetState v cb) = (v \<noteq> None)"
| "defined_event e = True"

text \<open>A state none of whose three slots holds \<open>undefined\<close>.\<close>

definition all_defined :: "'a IUndoableState \<Rightarrow> bool" where
  "all_defined s =
     (currentState s \<noteq> None \<and> None \<notin> set (previousState s) \<and> None \<notin> set (nextState s))"

text \<open>The recorded values in time order: the past, the current value, the future newest-undone first.\<close>

definition timeline :: "'a IUndoableState \<Rightarrow> 'a option list" where
  "timeline s = previousState s @ [currentState s] @ rev (nextState s)"

section \<open>What each operation does to the state\<close>

lemma state_setState [simp]:
  "state (setState update callback this) = merge_state (state this) update"
  by (simp add: setState_def)

lemma called_setState [simp]:
  "called (setState update callback this) =
     called this @ (case callback of None \<Rightarrow> [] | Some cb \<Rightarrow> [cb])"
  by (simp add: setState_def)

lemma state_pushState:
  "state (pushState v cb this) =
     \<lparr> currentState = v,
       previousState = previousState (state this) @ [currentState (state this)],
       nextState = [] \<rparr>"
  by (simp add: pushState_def merge_state_def)

lemma state_resetState:
  "state (resetState v cb this) = \<lparr> currentState = v, previousState = [], nextState = [] \<rparr>"
  by (simp add: resetState_def merge_state_def)

lemma state_updateState:
  "state (updateState v cb this) = (state this) \<lparr> currentState := v \<rparr>"
  by (simp add: updateState_def merge_state_def)

lemma undo_nonempty:
  assumes "previousState (state this) \<noteq> []"
  shows "fst (undo this) = last (previousState (state this))"
    and "state (snd (undo this)) =
           \<lparr> currentState = last (previousState (state this)),
             previousState = butlast (previousState (state this)),
             nextState = nextState (state this) @ [currentState (state this)] \<rparr>"
    and "called (snd (undo this)) = called this"
  using assms by (simp_all add: undo_def Let_def merge_state_def)

lemma redo_nonempty:
  assumes "nextState (state this) \<noteq> []"
  shows "fst (redo this) = last (nextState (state this))"
    and "state (snd (redo this)) =
           \<lparr> currentState = last (nextState (state this)),
             previousState = previousState (state this) @ [currentState (state this)],
             nextState = butlast (nextState (state this)) \<rparr>"
    and "called (snd (redo this)) = called this"
  using assms by (simp_all add: redo_def Let_def merge_state_def)

lemma last_Cons_rev_butlast: "xs \<noteq> [] \<Longrightarrow> last xs # rev (butlast xs) = rev xs"
  by (cases xs rule: rev_cases) simp_all

lemma undo_empty: "previousState (state this) = [] \<Longrightarrow> undo this = (None, this)"
  by (simp add: undo_def)

lemma redo_empty: "nextState (state this) = [] \<Longrightarrow> redo this = (None, this)"
  by (simp add: redo_def)

text \<open>
  C3. \<open>pushState(value)\<close> appends the previous current value to the end of the past stack,
  makes \<open>value\<close> the current value and leaves the future stack empty, whatever the state
  before (a non-empty future included) and whatever the value (one equal to the current
  value included).
\<close>

theorem pushState_effect:
  "currentState (state (pushState v cb this)) = v \<and>
   previousState (state (pushState v cb this))
     = previousState (state this) @ [currentState (state this)] \<and>
   nextState (state (pushState v cb this)) = []"
  by (simp add: state_pushState)

text \<open>
  C6. \<open>updateState(value)\<close> makes \<open>value\<close> the current value and leaves the past stack and
  the future stack as they were, in length and in content.
\<close>

theorem updateState_effect:
  "currentState (state (updateState v cb this)) = v \<and>
   previousState (state (updateState v cb this)) = previousState (state this) \<and>
   nextState (state (updateState v cb this)) = nextState (state this)"
  by (simp add: state_updateState)

text \<open>
  C7. \<open>resetState(value)\<close> makes \<open>value\<close> the current value and leaves the past stack and
  the future stack empty, however many elements they held.
\<close>

theorem resetState_effect:
  "currentState (state (resetState v cb this)) = v \<and>
   previousState (state (resetState v cb this)) = [] \<and>
   nextState (state (resetState v cb this)) = []"
  by (simp add: state_resetState)

text \<open>
  C5. With an empty past stack \<open>undo()\<close> returns \<open>undefined\<close> and the instance is the one
  before the call: the same current value, the same stacks, and no callback invoked.
  Likewise \<open>redo()\<close> with an empty future stack.
\<close>

theorem undo_redo_at_boundary:
  "(previousState (state this) = [] \<longrightarrow> undo this = (None, this)) \<and>
   (nextState (state this) = [] \<longrightarrow> redo this = (None, this))"
  by (simp add: undo_empty redo_empty)

theorem undo_redo_at_boundary_witness:
  "previousState (state (new_Undoable :: (nat, unit) Undoable)) = [] \<and>
   nextState (state (new_Undoable :: (nat, unit) Undoable)) = [] \<and>
   undo (new_Undoable :: (nat, unit) Undoable) = (None, new_Undoable) \<and>
   redo (new_Undoable :: (nat, unit) Undoable) = (None, new_Undoable)"
  using undo_redo_at_boundary [of "new_Undoable :: (nat, unit) Undoable"]
  by (simp add: new_Undoable_def initial_state_def)

text \<open>
  C4. With a non-empty past stack, \<open>undo()\<close> returns the current value of the state it
  commits, and that value is the last element the past stack had before the call. With a
  non-empty future stack, \<open>redo()\<close> returns the current value of the state it commits,
  the last element the future stack had before the call.
\<close>

theorem undo_redo_return_value:
  "(previousState (state this) \<noteq> [] \<longrightarrow>
      fst (undo this) = currentState (state (snd (undo this))) \<and>
      fst (undo this) = last (previousState (state this))) \<and>
   (nextState (state this) \<noteq> [] \<longrightarrow>
      fst (redo this) = currentState (state (snd (redo this))) \<and>
      fst (redo this) = last (nextState (state this)))"
  by (simp add: undo_nonempty redo_nonempty)

theorem undo_redo_return_value_witness:
  "previousState (state \<lparr> state = \<lparr> currentState = Some (2::nat), previousState = [Some 0, Some 1],
       nextState = [Some 4, Some 3] \<rparr>, called = ([] :: unit list) \<rparr>) \<noteq> [] \<and>
   nextState (state \<lparr> state = \<lparr> currentState = Some (2::nat), previousState = [Some 0, Some 1],
       nextState = [Some 4, Some 3] \<rparr>, called = ([] :: unit list) \<rparr>) \<noteq> [] \<and>
   fst (undo \<lparr> state = \<lparr> currentState = Some (2::nat), previousState = [Some 0, Some 1],
       nextState = [Some 4, Some 3] \<rparr>, called = ([] :: unit list) \<rparr>) = Some 1 \<and>
   currentState (state (snd (undo \<lparr> state = \<lparr> currentState = Some (2::nat),
       previousState = [Some 0, Some 1], nextState = [Some 4, Some 3] \<rparr>,
       called = ([] :: unit list) \<rparr>))) = Some 1 \<and>
   fst (redo \<lparr> state = \<lparr> currentState = Some (2::nat), previousState = [Some 0, Some 1],
       nextState = [Some 4, Some 3] \<rparr>, called = ([] :: unit list) \<rparr>) = Some 3 \<and>
   currentState (state (snd (redo \<lparr> state = \<lparr> currentState = Some (2::nat),
       previousState = [Some 0, Some 1], nextState = [Some 4, Some 3] \<rparr>,
       called = ([] :: unit list) \<rparr>))) = Some 3"
proof -
  let ?inst = "\<lparr> state = \<lparr> currentState = Some (2::nat), previousState = [Some 0, Some 1],
       nextState = [Some 4, Some 3] \<rparr>, called = ([] :: unit list) \<rparr>"
  have p: "previousState (state ?inst) \<noteq> []" and n: "nextState (state ?inst) \<noteq> []"
    by simp_all
  have u: "fst (undo ?inst) = currentState (state (snd (undo ?inst)))"
    and u': "fst (undo ?inst) = last (previousState (state ?inst))"
    and r: "fst (redo ?inst) = currentState (state (snd (redo ?inst)))"
    and r': "fst (redo ?inst) = last (nextState (state ?inst))"
    using undo_redo_return_value [of ?inst] p n by blast+
  have "fst (undo ?inst) = Some 1" using u' by simp
  moreover have "fst (redo ?inst) = Some 3" using r' by simp
  ultimately show ?thesis using p n u [symmetric] r [symmetric] by simp
qed

text \<open>
  C2. With a non-empty past stack, \<open>undo()\<close> followed by \<open>redo()\<close> gives back the instance
  as it was before the \<open>undo()\<close>: the same current value, the same past stack and the
  same future stack. This holds in every state, so in each state reached by pushes
  followed by any number of \<open>undo()\<close> and \<open>redo()\<close> calls.
\<close>

theorem undo_then_redo_restores:
  "previousState (state this) \<noteq> [] \<Longrightarrow> snd (redo (snd (undo this))) = this"
proof -
  assume ne: "previousState (state this) \<noteq> []"
  let ?u = "snd (undo this)"
  have fut: "nextState (state ?u) \<noteq> []"
    using ne by (simp add: undo_nonempty)
  have "state (snd (redo ?u)) = state this"
    using ne by (simp add: redo_nonempty [OF fut] undo_nonempty)
  moreover have "called (snd (redo ?u)) = called this"
    using ne by (simp add: redo_nonempty [OF fut] undo_nonempty)
  ultimately show ?thesis by simp
qed

theorem undo_then_redo_restores_witness:
  "previousState (state (snd (undo (pushState (Some 2) None (pushState (Some 1) None
       \<lparr> state = \<lparr> currentState = Some (0::nat), previousState = [], nextState = [] \<rparr>,
         called = ([] :: unit list) \<rparr>))))) \<noteq> [] \<and>
   snd (redo (snd (undo (snd (undo (pushState (Some 2) None (pushState (Some 1) None
       \<lparr> state = \<lparr> currentState = Some (0::nat), previousState = [], nextState = [] \<rparr>,
         called = ([] :: unit list) \<rparr>)))))))
     = snd (undo (pushState (Some 2) None (pushState (Some 1) None
       \<lparr> state = \<lparr> currentState = Some (0::nat), previousState = [], nextState = [] \<rparr>,
         called = ([] :: unit list) \<rparr>))) \<and>
   state (snd (undo (pushState (Some 2) None (pushState (Some 1) None
       \<lparr> state = \<lparr> currentState = Some (0::nat), previousState = [], nextState = [] \<rparr>,
         called = ([] :: unit list) \<rparr>))))
     = \<lparr> currentState = Some 1, previousState = [Some 0], nextState = [Some 2] \<rparr>"
proof -
  let ?inst = "snd (undo (pushState (Some 2) None (pushState (Some 1) None
       \<lparr> state = \<lparr> currentState = Some (0::nat), previousState = [], nextState = [] \<rparr>,
         called = ([] :: unit list) \<rparr>)))"
  have st: "state ?inst = \<lparr> currentState = Some 1, previousState = [Some 0], nextState = [Some 2] \<rparr>"
    by (simp add: undo_def pushState_def merge_state_def Let_def)
  have ne: "previousState (state ?inst) \<noteq> []"
    unfolding st by simp
  show ?thesis
    using ne st undo_then_redo_restores [OF ne] by blast
qed

text \<open>
  C1 (as amended). From a history with current value \<open>a\<close> and both stacks empty,
  \<open>pushState(b)\<close>, \<open>pushState(c)\<close> and two \<open>undo()\<close> calls end with current value \<open>a\<close> and
  an empty past stack. The first \<open>undo()\<close> returns \<open>b\<close> and leaves the future stack
  \<open>[c]\<close>; the second returns \<open>a\<close> and leaves the future stack \<open>[c, b]\<close>: each undone
  value is appended at the end.
\<close>

theorem push_push_undo_undo:
  "state (pushState c cb' (pushState b cb
      \<lparr> state = \<lparr> currentState = a, previousState = [], nextState = [] \<rparr>, called = k \<rparr>))
     = \<lparr> currentState = c, previousState = [a, b], nextState = [] \<rparr> \<and>
   fst (undo (pushState c cb' (pushState b cb
      \<lparr> state = \<lparr> currentState = a, previousState = [], nextState = [] \<rparr>, called = k \<rparr>))) = b \<and>
   state (snd (undo (pushState c cb' (pushState b cb
      \<lparr> state = \<lparr> currentState = a, previousState = [], nextState = [] \<rparr>, called = k \<rparr>))))
     = \<lparr> currentState = b, previousState = [a], nextState = [c] \<rparr> \<and>
   fst (undo (snd (undo (pushState c cb' (pushState b cb
      \<lparr> state = \<lparr> currentState = a, previousState = [], nextState = [] \<rparr>, called = k \<rparr>))))) = a \<and>
   state (snd (undo (snd (undo (pushState c cb' (pushState b cb
      \<lparr> state = \<lparr> currentState = a, previousState = [], nextState = [] \<rparr>, called = k \<rparr>))))))
     = \<lparr> currentState = a, previousState = [], nextState = [c, b] \<rparr>"
  by (simp add: undo_def pushState_def merge_state_def Let_def)

text \<open>
  C1 as stated fails: with \<open>a = 0\<close>, \<open>b = 1\<close>, \<open>c = 2\<close> the future stack after the second
  \<open>undo()\<close> is not \<open>[b, c]\<close>.
\<close>

theorem push_push_undo_undo_counterexample:
  "nextState (state (snd (undo (snd (undo (pushState (Some 2) None (pushState (Some 1) None
      \<lparr> state = \<lparr> currentState = Some (0::nat), previousState = [], nextState = [] \<rparr>,
        called = ([] :: unit list) \<rparr>)))))))
     \<noteq> [Some 1, Some 2]"
  by (simp add: undo_def pushState_def merge_state_def Let_def)

text \<open>
  C9. \<open>undo()\<close> and \<open>redo()\<close> keep the sequence \<open>past @ [current] @ rev future\<close>, and so
  the sum of the lengths of the two stacks. A successful \<open>undo()\<close> moves the last element
  of the past stack into the current slot and the old current value to the end of the
  future stack; a successful \<open>redo()\<close> is the mirror move.
\<close>

theorem undo_redo_preserve_timeline:
  "timeline (state (snd (undo this))) = timeline (state this) \<and>
   timeline (state (snd (redo this))) = timeline (state this) \<and>
   length (previousState (state (snd (undo this)))) + length (nextState (state (snd (undo this))))
     = length (previousState (state this)) + length (nextState (state this)) \<and>
   length (previousState (state (snd (redo this)))) + length (nextState (state (snd (redo this))))
     = length (previousState (state this)) + length (nextState (state this)) \<and>
   (previousState (state this) \<noteq> [] \<longrightarrow>
      currentState (state (snd (undo this))) = last (previousState (state this)) \<and>
      previousState (state (snd (undo this))) = butlast (previousState (state this)) \<and>
      nextState (state (snd (undo this))) = nextState (state this) @ [currentState (state this)]) \<and>
   (nextState (state this) \<noteq> [] \<longrightarrow>
      currentState (state (snd (redo this))) = last (nextState (state this)) \<and>
      nextState (state (snd (redo this))) = butlast (nextState (state this)) \<and>
      previousState (state (snd (redo this)))
        = previousState (state this) @ [currentState (state this)])"
proof -
  have tu: "timeline (state (snd (undo this))) = timeline (state this)"
  proof (cases "previousState (state this) = []")
    case True
    then show ?thesis by (simp add: undo_empty)
  next
    case False
    then have "butlast (previousState (state this)) @ [last (previousState (state this))]
        = previousState (state this)"
      by simp
    then show ?thesis
      using False by (simp add: timeline_def undo_nonempty del: append_butlast_last_id)
  qed
  have tr: "timeline (state (snd (redo this))) = timeline (state this)"
  proof (cases "nextState (state this) = []")
    case True
    then show ?thesis by (simp add: redo_empty)
  next
    case False
    then show ?thesis
      by (simp add: timeline_def redo_nonempty last_Cons_rev_butlast)
  qed
  have lu: "length (previousState (state (snd (undo this)))) + length (nextState (state (snd (undo this))))
     = length (previousState (state this)) + length (nextState (state this))"
    by (cases "previousState (state this) = []") (simp_all add: undo_empty undo_nonempty)
  have lr: "length (previousState (state (snd (redo this)))) + length (nextState (state (snd (redo this))))
     = length (previousState (state this)) + length (nextState (state this))"
    by (cases "nextState (state this) = []") (simp_all add: redo_empty redo_nonempty)
  show ?thesis
    using tu tr lu lr by (simp add: undo_nonempty redo_nonempty)
qed

theorem undo_redo_preserve_timeline_witness:
  "previousState (state \<lparr> state = \<lparr> currentState = Some (4::nat), previousState = [Some 2, Some 3],
       nextState = [Some 6, Some 5] \<rparr>, called = ([] :: unit list) \<rparr>) \<noteq> [] \<and>
   nextState (state \<lparr> state = \<lparr> currentState = Some (4::nat), previousState = [Some 2, Some 3],
       nextState = [Some 6, Some 5] \<rparr>, called = ([] :: unit list) \<rparr>) \<noteq> [] \<and>
   timeline (state (snd (undo \<lparr> state = \<lparr> currentState = Some (4::nat),
       previousState = [Some 2, Some 3], nextState = [Some 6, Some 5] \<rparr>,
       called = ([] :: unit list) \<rparr>))) = [Some 2, Some 3, Some 4, Some 5, Some 6] \<and>
   timeline (state (snd (redo \<lparr> state = \<lparr> currentState = Some (4::nat),
       previousState = [Some 2, Some 3], nextState = [Some 6, Some 5] \<rparr>,
       called = ([] :: unit list) \<rparr>))) = [Some 2, Some 3, Some 4, Some 5, Some 6] \<and>
   state (snd (undo \<lparr> state = \<lparr> currentState = Some (4::nat),
       previousState = [Some 2, Some 3], nextState = [Some 6, Some 5] \<rparr>,
       called = ([] :: unit list) \<rparr>))
     = \<lparr> currentState = Some 3, previousState = [Some 2], nextState = [Some 6, Some 5, Some 4] \<rparr> \<and>
   state (snd (redo \<lparr> state = \<lparr> currentState = Some (4::nat),
       previousState = [Some 2, Some 3], nextState = [Some 6, Some 5] \<rparr>,
       called = ([] :: unit list) \<rparr>))
     = \<lparr> currentState = Some 5, previousState = [Some 2, Some 3, Some 4], nextState = [Some 6] \<rparr>"
proof -
  let ?inst = "\<lparr> state = \<lparr> currentState = Some (4::nat), previousState = [Some 2, Some 3],
       nextState = [Some 6, Some 5] \<rparr>, called = ([] :: unit list) \<rparr>"
  have p: "previousState (state ?inst) \<noteq> []" and n: "nextState (state ?inst) \<noteq> []"
    by simp_all
  have tl: "timeline (state ?inst) = [Some 2, Some 3, Some 4, Some 5, Some 6]"
    by (simp add: timeline_def)
  note fact = undo_redo_preserve_timeline [of ?inst]
  have tu: "timeline (state (snd (undo ?inst))) = [Some 2, Some 3, Some 4, Some 5, Some 6]"
    using fact tl by simp
  have tr: "timeline (state (snd (redo ?inst))) = [Some 2, Some 3, Some 4, Some 5, Some 6]"
    using fact tl by simp
  have u: "currentState (state (snd (undo ?inst))) = Some 3"
      "previousState (state (snd (undo ?inst))) = [Some 2]"
      "nextState (state (snd (undo ?inst))) = [Some 6, Some 5, Some 4]"
    using fact p by simp_all
  have r: "currentState (state (snd (redo ?inst))) = Some 5"
      "previousState (state (snd (redo ?inst))) = [Some 2, Some 3, Some 4]"
      "nextState (state (snd (redo ?inst))) = [Some 6]"
    using fact n by simp_all
  have su: "state (snd (undo ?inst))
     = \<lparr> currentState = Some 3, previousState = [Some 2], nextState = [Some 6, Some 5, Some 4] \<rparr>"
    using u by (cases "state (snd (undo ?inst))") simp
  have sr: "state (snd (redo ?inst))
     = \<lparr> currentState = Some 5, previousState = [Some 2, Some 3, Some 4], nextState = [Some 6] \<rparr>"
    using r by (cases "state (snd (redo ?inst))") simp
  show ?thesis
    using p n tu tr su sr by blast
qed

section \<open>The adoption of the initial value\<close>

lemma getDerivedStateFromProps_fires:
  "(getDerivedStateFromProps truthy props s \<noteq> None)
     = (is_truthy truthy (initialState props) \<and> currentState s = None)"
  by (simp add: getDerivedStateFromProps_def)

lemma fires_Derive:
  "fires truthy (Derive props) this
     = (is_truthy truthy (initialState props) \<and> currentState (state this) = None)"
  by (simp add: getDerivedStateFromProps_def)

lemma fires_defined: "currentState (state this) \<noteq> None \<Longrightarrow> \<not> fires truthy e this"
  by (cases e) (simp_all add: getDerivedStateFromProps_def del: not_None_eq)

lemma derive_defined: "currentState (state this) \<noteq> None \<Longrightarrow> derive truthy props this = this"
  by (simp add: derive_def getDerivedStateFromProps_def del: not_None_eq)

lemma derive_adopts:
  "is_truthy truthy (initialState props) \<Longrightarrow> currentState (state this) = None \<Longrightarrow>
   state (derive truthy props this) = (state this) \<lparr> currentState := initialState props \<rparr>"
  by (simp add: derive_def getDerivedStateFromProps_def merge_state_def)

lemma all_defined_undo: "all_defined (state this) \<Longrightarrow> all_defined (state (snd (undo this)))"
proof (cases "previousState (state this) = []")
  case True
  assume "all_defined (state this)"
  with True show ?thesis by (simp add: undo_empty)
next
  case False
  assume d: "all_defined (state this)"
  have "last (previousState (state this)) \<in> set (previousState (state this))"
    using False by simp
  with d have "last (previousState (state this)) \<noteq> None"
    unfolding all_defined_def by metis
  moreover have "None \<notin> set (butlast (previousState (state this)))"
    using d unfolding all_defined_def by (metis in_set_butlastD)
  ultimately show ?thesis
    using d False by (auto simp: all_defined_def undo_nonempty)
qed

lemma all_defined_redo: "all_defined (state this) \<Longrightarrow> all_defined (state (snd (redo this)))"
proof (cases "nextState (state this) = []")
  case True
  assume "all_defined (state this)"
  with True show ?thesis by (simp add: redo_empty)
next
  case False
  assume d: "all_defined (state this)"
  have "last (nextState (state this)) \<in> set (nextState (state this))"
    using False by simp
  with d have "last (nextState (state this)) \<noteq> None"
    unfolding all_defined_def by metis
  moreover have "None \<notin> set (butlast (nextState (state this)))"
    using d unfolding all_defined_def by (metis in_set_butlastD)
  ultimately show ?thesis
    using d False by (auto simp: all_defined_def redo_nonempty)
qed

lemma all_defined_step:
  "all_defined (state this) \<Longrightarrow> defined_event e \<Longrightarrow> all_defined (state (step truthy e this))"
proof (cases e)
  case (PushState v cb)
  assume "all_defined (state this)" "defined_event e"
  with PushState show ?thesis by (auto simp: all_defined_def state_pushState)
next
  case (UpdateState v cb)
  assume "all_defined (state this)" "defined_event e"
  with UpdateState show ?thesis by (auto simp: all_defined_def state_updateState)
next
  case (ResetState v cb)
  assume "all_defined (state this)" "defined_event e"
  with ResetState show ?thesis by (auto simp: all_defined_def state_resetState)
next
  case Undo
  assume "all_defined (state this)"
  with Undo show ?thesis by (simp add: all_defined_undo)
next
  case Redo
  assume "all_defined (state this)"
  with Redo show ?thesis by (simp add: all_defined_redo)
next
  case (Derive props)
  assume "all_defined (state this)"
  with Derive show ?thesis by (simp add: all_defined_def derive_defined del: not_None_eq)
qed

lemma adoptions_all_defined:
  "all_defined (state this) \<Longrightarrow> list_all defined_event evs \<Longrightarrow> adoptions truthy evs this = 0"
proof (induction evs arbitrary: this)
  case Nil
  show ?case by simp
next
  case (Cons e evs)
  from Cons.prems have cur: "currentState (state this) \<noteq> None"
    by (simp add: all_defined_def)
  from Cons.prems have "all_defined (state (step truthy e this))"
    by (simp add: all_defined_step)
  with Cons.IH Cons.prems have "adoptions truthy evs (step truthy e this) = 0"
    by simp
  with cur show ?case
    by (simp add: fires_defined)
qed

text \<open>
  C8 (as amended). The adoption rule fires at a derivation exactly when the supplied
  initial value is truthy and the current value is \<open>undefined\<close>. From a state whose
  current value and stack entries are all defined, it never fires along any sequence of
  method calls that are handed defined values and of derivations, whatever the props of
  each derivation.
\<close>

theorem adoption_rule_guard:
  "(getDerivedStateFromProps truthy props s \<noteq> None)
     = (is_truthy truthy (initialState props) \<and> currentState s = None) \<and>
   (all_defined (state this) \<and> list_all defined_event evs \<longrightarrow> adoptions truthy evs this = 0)"
  using getDerivedStateFromProps_fires [of truthy props s]
    adoptions_all_defined [of this evs truthy]
  by blast

theorem adoption_rule_guard_witness:
  "all_defined (state \<lparr> state = \<lparr> currentState = Some (3::nat), previousState = [Some 2],
       nextState = [] \<rparr>, called = ([] :: unit list) \<rparr>) \<and>
   list_all defined_event
     ([PushState (Some 4) None, Derive \<lparr> initialState = Some 9 \<rparr>, Undo,
       Derive \<lparr> initialState = Some 8 \<rparr>, Undo, Redo, UpdateState (Some 5) None,
       Derive \<lparr> initialState = None \<rparr>, ResetState (Some 6) None,
       Derive \<lparr> initialState = Some 7 \<rparr>] :: (nat, unit) event list) \<and>
   adoptions (\<lambda>n. 0 < n)
     [PushState (Some 4) None, Derive \<lparr> initialState = Some 9 \<rparr>, Undo,
      Derive \<lparr> initialState = Some 8 \<rparr>, Undo, Redo, UpdateState (Some 5) None,
      Derive \<lparr> initialState = None \<rparr>, ResetState (Some 6) None,
      Derive \<lparr> initialState = Some 7 \<rparr>]
     \<lparr> state = \<lparr> currentState = Some (3::nat), previousState = [Some 2],
       nextState = [] \<rparr>, called = ([] :: unit list) \<rparr> = 0 \<and>
   getDerivedStateFromProps (\<lambda>n. 0 < n) \<lparr> initialState = Some (7::nat) \<rparr> initial_state \<noteq> None"
proof -
  let ?inst = "\<lparr> state = \<lparr> currentState = Some (3::nat), previousState = [Some 2],
       nextState = [] \<rparr>, called = ([] :: unit list) \<rparr>"
  let ?evs = "[PushState (Some 4) None, Derive \<lparr> initialState = Some 9 \<rparr>, Undo,
      Derive \<lparr> initialState = Some 8 \<rparr>, Undo, Redo, UpdateState (Some 5) None,
      Derive \<lparr> initialState = None \<rparr>, ResetState (Some 6) None,
      Derive \<lparr> initialState = Some 7 \<rparr>] :: (nat, unit) event list"
  have d: "all_defined (state ?inst)"
    by (simp add: all_defined_def)
  have e: "list_all defined_event ?evs"
    by simp
  have g: "is_truthy (\<lambda>n. 0 < n) (initialState \<lparr> initialState = Some (7::nat) \<rparr>) \<and>
      currentState (initial_state :: nat IUndoableState) = None"
    by (simp add: is_truthy_def initial_state_def)
  note fact = adoption_rule_guard [of "\<lambda>n. 0 < n" "\<lparr> initialState = Some (7::nat) \<rparr>"
      initial_state ?inst ?evs]
  have "adoptions (\<lambda>n. 0 < n) ?evs ?inst = 0"
    using fact d e by blast
  moreover have "getDerivedStateFromProps (\<lambda>n. 0 < n) \<lparr> initialState = Some (7::nat) \<rparr>
      initial_state \<noteq> None"
    using fact g by blast
  ultimately show ?thesis
    using d e by blast
qed

text \<open>
  C8 as stated fails. A new instance adopts the initial value \<open>7\<close> at its first
  derivation, so its current value has been set; after \<open>resetState()\<close> without a value
  the rule fires again at the next derivation, although the props have not changed.
\<close>

theorem adoption_fires_again_counterexample:
  "currentState (state (derive (\<lambda>n. 0 < n) \<lparr> initialState = Some (7::nat) \<rparr>
      (new_Undoable :: (nat, unit) Undoable))) = Some 7 \<and>
   fires (\<lambda>n. 0 < n) (Derive \<lparr> initialState = Some (7::nat) \<rparr>)
     (resetState None None (derive (\<lambda>n. 0 < n) \<lparr> initialState = Some (7::nat) \<rparr>
        (new_Undoable :: (nat, unit) Undoable)))"
  by (simp add: derive_def getDerivedStateFromProps_def is_truthy_def merge_state_def
      new_Undoable_def initial_state_def resetState_def)

text \<open>
  C10. \<open>resetState()\<close> without a value (the parameter is optional in \<open>IUndoableMethods\<close>)
  leaves the current value \<open>undefined\<close> and both stacks empty. When the supplied initial
  value is truthy, the next derivation adopts it as the current value again: along
  mount, \<open>resetState()\<close>, next derivation, the rule fires twice on one instance.
\<close>

theorem resetState_without_value_readopts:
  "state (resetState None cb this)
     = \<lparr> currentState = None, previousState = [], nextState = [] \<rparr> \<and>
   (is_truthy truthy (initialState props) \<longrightarrow>
      fires truthy (Derive props) (resetState None cb this) \<and>
      state (derive truthy props (resetState None cb this))
        = \<lparr> currentState = initialState props, previousState = [], nextState = [] \<rparr> \<and>
      adoptions truthy [Derive props, ResetState None cb, Derive props]
        (new_Undoable :: ('a, 'c) Undoable) = 2)"
proof -
  have r: "state (resetState None cb this)
     = \<lparr> currentState = None, previousState = [], nextState = [] \<rparr>"
    by (simp add: state_resetState)
  have "adoptions truthy [Derive props, ResetState None cb, Derive props]
        (new_Undoable :: ('a, 'c) Undoable) = 2"
    if t: "is_truthy truthy (initialState props)"
  proof -
    let ?new = "new_Undoable :: ('a, 'c) Undoable"
    have f1: "fires truthy (Derive props) ?new"
      using t by (simp add: fires_Derive new_Undoable_def initial_state_def del: fires.simps)
    have f2: "\<not> fires truthy (ResetState None cb) (derive truthy props ?new)"
      by simp
    have f3: "fires truthy (Derive props) (resetState None cb (derive truthy props ?new))"
      using t by (simp add: fires_Derive state_resetState del: fires.simps)
    show ?thesis
      using f1 f2 f3 by (simp del: fires.simps)
  qed
  moreover have "fires truthy (Derive props) (resetState None cb this)"
    if t: "is_truthy truthy (initialState props)"
    using t by (simp add: fires_Derive state_resetState del: fires.simps)
  moreover have "state (derive truthy props (resetState None cb this))
        = \<lparr> currentState = initialState props, previousState = [], nextState = [] \<rparr>"
    if t: "is_truthy truthy (initialState props)"
    using t by (simp add: derive_adopts state_resetState)
  ultimately show ?thesis
    using r by blast
qed

theorem resetState_without_value_readopts_witness:
  "is_truthy (\<lambda>n. 0 < n) (initialState \<lparr> initialState = Some (7::nat) \<rparr>) \<and>
   state (resetState None None (pushState (Some 8) None
       (derive (\<lambda>n. 0 < n) \<lparr> initialState = Some (7::nat) \<rparr>
          (new_Undoable :: (nat, unit) Undoable))))
     = \<lparr> currentState = None, previousState = [], nextState = [] \<rparr> \<and>
   state (derive (\<lambda>n. 0 < n) \<lparr> initialState = Some (7::nat) \<rparr>
       (resetState None None (pushState (Some 8) None
          (derive (\<lambda>n. 0 < n) \<lparr> initialState = Some (7::nat) \<rparr>
             (new_Undoable :: (nat, unit) Undoable)))))
     = \<lparr> currentState = Some 7, previousState = [], nextState = [] \<rparr> \<and>
   adoptions (\<lambda>n. 0 < n)
     [Derive \<lparr> initialState = Some (7::nat) \<rparr>, ResetState None None,
      Derive \<lparr> initialState = Some (7::nat) \<rparr>]
     (new_Undoable :: (nat, unit) Undoable) = 2"
proof -
  let ?props = "\<lparr> initialState = Some (7::nat) \<rparr>"
  let ?inst = "pushState (Some 8) None
       (derive (\<lambda>n. 0 < n) ?props (new_Undoable :: (nat, unit) Undoable))"
  have t: "is_truthy (\<lambda>n. 0 < n) (initialState ?props)"
    by (simp add: is_truthy_def)
  show ?thesis
    using t resetState_without_value_readopts [of "None :: unit option" ?inst "\<lambda>n. 0 < n" ?props]
    by simp
qed

end
